theory Spec2Isabelle
  imports Complex_Main "HOL-Library.Multiset"
begin

section \<open>JavaScript values\<close>

text \<open>
  The library works on plain JavaScript data: numbers, strings, arrays and objects whose
  fields hold such values. Numbers are IEEE doubles in the source; here they are exact
  reals extended with the three non-finite values, so rounding and the sign of zero are
  not modelled. Field names and key arguments are assumed not to be names of members of
  \<open>Object.prototype\<close> (\<open>hasOwnProperty\<close>, \<open>toString\<close>, \<open>constructor\<close>, \<open>__proto__\<close>, ...):
  every property read and every method call on a record then sees own fields only.
\<close>

datatype jsnum = Fin real | PInf | NInf | NaN

datatype jsval = Undefined | Num jsnum | Str string | Arr "jsval list"

text \<open>
  An object is the list of its own fields in the order \<open>Object.keys\<close> enumerates them.
\<close>

type_synonym obj = "(string \<times> jsval) list"

text \<open>
  The two \<open>Error\<close>s thrown by the regressor, named as the specification names them, and
  the \<open>TypeError\<close> the runtime raises when a property of \<open>undefined\<close> is read or a
  value that is not a function is called.
\<close>

datatype error = InvalidInput | InsufficientData | TypeError

subsection \<open>Arithmetic on numbers\<close>

fun num_neg :: "jsnum \<Rightarrow> jsnum" where
  "num_neg (Fin a) = Fin (- a)"
| "num_neg PInf = NInf"
| "num_neg NInf = PInf"
| "num_neg NaN = NaN"

fun num_add :: "jsnum \<Rightarrow> jsnum \<Rightarrow> jsnum" where
  "num_add (Fin a) (Fin b) = Fin (a + b)"
| "num_add NaN _ = NaN"
| "num_add _ NaN = NaN"
| "num_add PInf NInf = NaN"
| "num_add NInf PInf = NaN"
| "num_add PInf _ = PInf"
| "num_add _ PInf = PInf"
| "num_add NInf _ = NInf"
| "num_add _ NInf = NInf"

definition num_sub :: "jsnum \<Rightarrow> jsnum \<Rightarrow> jsnum" where
  "num_sub a b = num_add a (num_neg b)"

text \<open>The sign of a number that is not \<open>NaN\<close>, and the infinity of a given sign.\<close>

fun num_sgn :: "jsnum \<Rightarrow> real" where
  "num_sgn (Fin a) = sgn a"
| "num_sgn PInf = 1"
| "num_sgn NInf = - 1"
| "num_sgn NaN = 0"

definition inf_of_sign :: "real \<Rightarrow> jsnum" where
  "inf_of_sign s = (if s = 0 then NaN else if 0 < s then PInf else NInf)"

fun num_mul :: "jsnum \<Rightarrow> jsnum \<Rightarrow> jsnum" where
  "num_mul (Fin a) (Fin b) = Fin (a * b)"
| "num_mul NaN _ = NaN"
| "num_mul _ NaN = NaN"
| "num_mul a b = inf_of_sign (num_sgn a * num_sgn b)"

fun num_div :: "jsnum \<Rightarrow> jsnum \<Rightarrow> jsnum" where
  "num_div (Fin a) (Fin b) = (if b = 0 then inf_of_sign (sgn a) else Fin (a / b))"
| "num_div NaN _ = NaN"
| "num_div _ NaN = NaN"
| "num_div (Fin a) _ = Fin 0"
| "num_div a (Fin b) = inf_of_sign (num_sgn a * (if b < 0 then - 1 else 1))"
| "num_div _ _ = NaN"

subsection \<open>Conversions\<close>

text \<open>
  \<open>Number::toString\<close> and \<open>StringToNumber\<close> depend on the binary representation of a
  number and on the grammar of numeric literals. They belong to the host, not to the
  library, and every function below takes them as the parameter \<open>h\<close>.
\<close>

record host =
  number_to_string :: "jsnum \<Rightarrow> string"
  string_to_number :: "string \<Rightarrow> jsnum"

fun intercalate :: "'a list \<Rightarrow> 'a list list \<Rightarrow> 'a list" where
  "intercalate sep [] = []"
| "intercalate sep [x] = x"
| "intercalate sep (x # y # zs) = x @ sep @ intercalate sep (y # zs)"

text \<open>
  \<open>ToString\<close>. An array is converted by \<open>join(",")\<close>, which writes \<open>undefined\<close>
  elements as the empty string.
\<close>

fun to_string :: "host \<Rightarrow> jsval \<Rightarrow> string" where
  "to_string h Undefined = ''undefined''"
| "to_string h (Num n) = number_to_string h n"
| "to_string h (Str s) = s"
| "to_string h (Arr vs) =
     intercalate '','' (map (\<lambda>v. case v of Undefined \<Rightarrow> [] | _ \<Rightarrow> to_string h v) vs)"

definition js_join :: "host \<Rightarrow> string \<Rightarrow> jsval list \<Rightarrow> string" where
  "js_join h sep vs =
     intercalate sep (map (\<lambda>v. case v of Undefined \<Rightarrow> [] | _ \<Rightarrow> to_string h v) vs)"

text \<open>\<open>ToPrimitive\<close> and \<open>ToNumber\<close>.\<close>

fun to_primitive :: "host \<Rightarrow> jsval \<Rightarrow> jsval" where
  "to_primitive h (Arr vs) = Str (to_string h (Arr vs))"
| "to_primitive h v = v"

fun to_number :: "host \<Rightarrow> jsval \<Rightarrow> jsnum" where
  "to_number h Undefined = NaN"
| "to_number h (Num n) = n"
| "to_number h (Str s) = string_to_number h s"
| "to_number h (Arr vs) = string_to_number h (to_string h (Arr vs))"

fun is_Str :: "jsval \<Rightarrow> bool" where
  "is_Str (Str s) = True"
| "is_Str v = False"

text \<open>The operators \<open>+\<close>, \<open>-\<close>, \<open>*\<close>, \<open>/\<close> and the call \<open>Math.pow(v, 2)\<close>.\<close>

definition js_add :: "host \<Rightarrow> jsval \<Rightarrow> jsval \<Rightarrow> jsval" where
  "js_add h a b =
     (let p = to_primitive h a; q = to_primitive h b
      in if is_Str p \<or> is_Str q then Str (to_string h p @ to_string h q)
         else Num (num_add (to_number h p) (to_number h q)))"

definition js_sub :: "host \<Rightarrow> jsval \<Rightarrow> jsval \<Rightarrow> jsval" where
  "js_sub h a b = Num (num_sub (to_number h a) (to_number h b))"

definition js_mul :: "host \<Rightarrow> jsval \<Rightarrow> jsval \<Rightarrow> jsval" where
  "js_mul h a b = Num (num_mul (to_number h a) (to_number h b))"

definition js_div :: "host \<Rightarrow> jsval \<Rightarrow> jsval \<Rightarrow> jsval" where
  "js_div h a b = Num (num_div (to_number h a) (to_number h b))"

definition Math_pow2 :: "host \<Rightarrow> jsval \<Rightarrow> jsval" where
  "Math_pow2 h a = (let n = to_number h a in Num (num_mul n n))"

subsection \<open>Properties of values\<close>

text \<open>
  The \<open>length\<close> property: reading it from \<open>undefined\<close> throws, a number has none
  (\<open>None\<close> stands for the value \<open>undefined\<close>), a string and an array have one.
\<close>

fun js_length :: "jsval \<Rightarrow> error + nat option" where
  "js_length Undefined = Inl TypeError"
| "js_length (Num n) = Inr None"
| "js_length (Str s) = Inr (Some (length s))"
| "js_length (Arr vs) = Inr (Some (length vs))"

text \<open>
  The element read \<open>v[i]\<close>: it throws on \<open>undefined\<close>, and is \<open>undefined\<close> out of range.
\<close>

fun js_index :: "jsval \<Rightarrow> nat \<Rightarrow> error + jsval" where
  "js_index Undefined i = Inl TypeError"
| "js_index (Num n) i = Inr Undefined"
| "js_index (Str s) i = Inr (if i < length s then Str [s ! i] else Undefined)"
| "js_index (Arr vs) i = Inr (if i < length vs then vs ! i else Undefined)"


section \<open>Objects\<close>

text \<open>
  The operations on the list of fields do not depend on what the fields hold; they are
  used again below, where fields hold values of a store.
\<close>

definition object_keys :: "(string \<times> 'v) list \<Rightarrow> string list" where
  "object_keys item = map fst item"

definition hasOwnProperty :: "(string \<times> 'v) list \<Rightarrow> string \<Rightarrow> bool" where
  "hasOwnProperty item key = (key \<in> set (object_keys item))"

text \<open>The read \<open>item[key]\<close>: the value of the field, \<open>undefined\<close> when there is none.\<close>

definition obj_get :: "obj \<Rightarrow> string \<Rightarrow> jsval" where
  "obj_get item key = (case map_of item key of Some v \<Rightarrow> v | None \<Rightarrow> Undefined)"

text \<open>
  A field name that is an array index (a decimal numeral without leading zeros, below
  \<open>2^32 - 1\<close>) is enumerated before all other names, in ascending numeric order; the
  other names follow in the order in which they were created.
\<close>

definition digit_value :: "char \<Rightarrow> nat" where
  "digit_value c = of_char c - of_char CHR ''0''"

definition index_value :: "string \<Rightarrow> nat" where
  "index_value s = foldl (\<lambda>n c. 10 * n + digit_value c) 0 s"

definition is_array_index :: "string \<Rightarrow> bool" where
  "is_array_index s =
     (s \<noteq> [] \<and> list_all (\<lambda>c. c \<in> set ''0123456789'') s \<and>
      (s = ''0'' \<or> hd s \<noteq> CHR ''0'') \<and> length s \<le> 10 \<and> index_value s < 4294967295)"

text \<open>
  The write \<open>item[key] = v\<close>: an existing field keeps its place, a new one is created at
  its place in the enumeration order.
\<close>

definition obj_set :: "(string \<times> 'v) list \<Rightarrow> string \<Rightarrow> 'v \<Rightarrow> (string \<times> 'v) list" where
  "obj_set item key v =
     (if hasOwnProperty item key
      then map (\<lambda>(k', v'). if k' = key then (k', v) else (k', v')) item
      else if is_array_index key
      then takeWhile (\<lambda>(k', v'). is_array_index k' \<and> index_value k' < index_value key) item @
           [(key, v)] @
           dropWhile (\<lambda>(k', v'). is_array_index k' \<and> index_value k' < index_value key) item
      else item @ [(key, v)])"

text \<open>\<open>delete item[key]\<close>.\<close>

definition obj_delete :: "(string \<times> 'v) list \<Rightarrow> string \<Rightarrow> (string \<times> 'v) list" where
  "obj_delete item key = filter (\<lambda>(k', v'). k' \<noteq> key) item"

section \<open>Sequencing of effects that may throw\<close>

text \<open>
  \<open>forEach\<close>, \<open>map\<close>, \<open>filter\<close> and \<open>reduce\<close> call their callback on the elements from
  left to right; the first exception ends the whole call.
\<close>

fun reduce_err :: "('b \<Rightarrow> 'a \<Rightarrow> error + 'b) \<Rightarrow> 'a list \<Rightarrow> 'b \<Rightarrow> error + 'b" where
  "reduce_err f [] acc = Inr acc"
| "reduce_err f (x # xs) acc =
     (case f acc x of Inl e \<Rightarrow> Inl e | Inr acc' \<Rightarrow> reduce_err f xs acc')"

fun map_err :: "('a \<Rightarrow> error + 'b) \<Rightarrow> 'a list \<Rightarrow> error + 'b list" where
  "map_err f [] = Inr []"
| "map_err f (x # xs) =
     (case f x of Inl e \<Rightarrow> Inl e
      | Inr y \<Rightarrow> (case map_err f xs of Inl e \<Rightarrow> Inl e | Inr ys \<Rightarrow> Inr (y # ys)))"

fun filter_err :: "('a \<Rightarrow> error + bool) \<Rightarrow> 'a list \<Rightarrow> error + 'a list" where
  "filter_err p [] = Inr []"
| "filter_err p (x # xs) =
     (case p x of Inl e \<Rightarrow> Inl e
      | Inr b \<Rightarrow> (case filter_err p xs of Inl e \<Rightarrow> Inl e
                 | Inr ys \<Rightarrow> Inr (if b then x # ys else ys)))"

text \<open>The position of the first element that satisfies a predicate, as \<open>find\<close> locates it.\<close>

fun find_index :: "('a \<Rightarrow> bool) \<Rightarrow> 'a list \<Rightarrow> nat option" where
  "find_index P [] = None"
| "find_index P (x # xs) = (if P x then Some 0 else map_option Suc (find_index P xs))"

section \<open>The regressor\<close>

text \<open>
  \<open>linearRegressionPredictor(xValues, yValues)\<close> of \<open>src/index.js\<close>. Both length tests
  read \<open>length\<close> before anything else; \<open>reduce\<close> exists on arrays only, so any other
  value that passes the tests ends in a \<open>TypeError\<close>.
\<close>

definition array_get :: "jsval list \<Rightarrow> nat \<Rightarrow> jsval" where
  "array_get vs i = (if i < length vs then vs ! i else Undefined)"

definition linearRegressionPredictor ::
    "host \<Rightarrow> jsval \<Rightarrow> jsval \<Rightarrow> error + (jsval \<Rightarrow> jsval)" where
  "linearRegressionPredictor h xValues yValues =
     (case js_length xValues of Inl e \<Rightarrow> Inl e
      | Inr lx \<Rightarrow>
     (case js_length yValues of Inl e \<Rightarrow> Inl e
      | Inr ly \<Rightarrow>
        if lx \<noteq> ly \<or> lx = Some 0 then Inl InvalidInput
        else if lx = Some 1 then Inl InsufficientData
        else (case (xValues, yValues) of
            (Arr xs, Arr ys) \<Rightarrow>
              (let n = Num (Fin (real (length xs)));
                   xMean = js_div h (foldl (\<lambda>sum x. js_add h sum x) (Num (Fin 0)) xs) n;
                   yMean = js_div h (foldl (\<lambda>sum y. js_add h sum y) (Num (Fin 0)) ys) n;
                   numerator =
                     foldl (\<lambda>sum (x, i). js_add h sum
                              (js_mul h (js_sub h x xMean) (js_sub h (array_get ys i) yMean)))
                       (Num (Fin 0)) (zip xs [0..<length xs]);
                   denominator =
                     foldl (\<lambda>sum x. js_add h sum (Math_pow2 h (js_sub h x xMean)))
                       (Num (Fin 0)) xs;
                   slope = js_div h numerator denominator;
                   intercept = js_sub h yMean (js_mul h slope xMean)
               in Inr (\<lambda>newX. js_add h (js_mul h slope newX) intercept))
          | _ \<Rightarrow> Inl TypeError)))"

section \<open>Projector, grouper and ungrouper\<close>

text \<open>\<open>removeExtraProperties(data, allowedProperties)\<close>.\<close>

definition removeExtraProperties :: "obj list \<Rightarrow> string list \<Rightarrow> obj list" where
  "removeExtraProperties data allowedProperties =
     map (\<lambda>item.
        foldl (\<lambda>obj key. obj_set obj key (obj_get item key)) []
          (filter (\<lambda>key. key \<in> set allowedProperties) (object_keys item)))
       data"

text \<open>
  \<open>group(array, groupingKeys)\<close>. The callback of \<open>reduce\<close> is \<open>group_step\<close>; the entries
  of \<open>result\<close> carry the composite key in the field \<open>key\<close> until the final \<open>map\<close>
  deletes it. \<open>push_all\<close> is the \<open>forEach\<close> that appends to an existing entry: \<open>push\<close>
  exists on arrays only.
\<close>

fun push_all :: "obj \<Rightarrow> obj \<Rightarrow> string list \<Rightarrow> error + obj" where
  "push_all existingEntry item [] = Inr existingEntry"
| "push_all existingEntry item (property # ps) =
     (case obj_get existingEntry property of
        Arr vs \<Rightarrow>
          push_all (obj_set existingEntry property (Arr (vs @ [obj_get item property]))) item ps
      | _ \<Rightarrow> Inl TypeError)"

definition new_entry :: "obj \<Rightarrow> string list \<Rightarrow> string list \<Rightarrow> string \<Rightarrow> obj" where
  "new_entry item groupingKeys aggregatedProperties key =
     (let e1 = foldl (\<lambda>newEntry k. obj_set newEntry k (obj_get item k)) [] groupingKeys;
          e2 = foldl (\<lambda>newEntry property. obj_set newEntry property (Arr [obj_get item property]))
                 e1 aggregatedProperties
      in obj_set e2 ''key'' (Str key))"

definition group_step :: "host \<Rightarrow> string list \<Rightarrow> obj list \<Rightarrow> obj \<Rightarrow> error + obj list" where
  "group_step h groupingKeys result item =
     (if \<not> list_all (\<lambda>key. hasOwnProperty item key) groupingKeys then Inr result
      else
        let key = js_join h ''-'' (map (\<lambda>key. obj_get item key) groupingKeys);
            aggregatedProperties =
              filter (\<lambda>key. key \<notin> set groupingKeys) (object_keys item)
        in case find_index (\<lambda>entry. obj_get entry ''key'' = Str key) result of
             Some i \<Rightarrow>
               (case push_all (result ! i) item aggregatedProperties of
                  Inl e \<Rightarrow> Inl e
                | Inr existingEntry \<Rightarrow> Inr (result[i := existingEntry]))
           | None \<Rightarrow> Inr (result @ [new_entry item groupingKeys aggregatedProperties key]))"

definition group :: "host \<Rightarrow> obj list \<Rightarrow> string list \<Rightarrow> error + obj list" where
  "group h array groupingKeys =
     (case reduce_err (group_step h groupingKeys) array [] of
        Inl e \<Rightarrow> Inl e
      | Inr result \<Rightarrow> Inr (map (\<lambda>item. obj_delete item ''key'') result))"

text \<open>
  \<open>ungroup(array, groupingKeys)\<close>. The bound of the \<open>for\<close> loop is
  \<open>item[aggregatedProperties[0]].length\<close>; when \<open>aggregatedProperties\<close> is empty its
  element \<open>0\<close> is \<open>undefined\<close>, and the property read with the key \<open>undefined\<close> looks up
  the field named \<open>undefined\<close>. A bound that is \<open>undefined\<close> makes the test \<open>i < bound\<close>
  false. \<open>new_item\<close> is the body of the loop.
\<close>

definition new_item :: "obj \<Rightarrow> string list \<Rightarrow> string list \<Rightarrow> nat \<Rightarrow> error + obj" where
  "new_item item groupingKeys aggregatedProperties i =
     reduce_err
       (\<lambda>newItem property.
          case js_index (obj_get item property) i of
            Inl e \<Rightarrow> Inl e
          | Inr v \<Rightarrow> Inr (obj_set newItem property v))
       aggregatedProperties
       (foldl (\<lambda>newItem key. obj_set newItem key (obj_get item key)) [] groupingKeys)"

definition ungroup_item :: "string list \<Rightarrow> obj \<Rightarrow> error + obj list" where
  "ungroup_item groupingKeys item =
     (let aggregatedProperties =
            filter (\<lambda>key. key \<notin> set groupingKeys) (object_keys item);
          first = (case aggregatedProperties of [] \<Rightarrow> ''undefined'' | p # ps \<Rightarrow> p)
      in case js_length (obj_get item first) of
           Inl e \<Rightarrow> Inl e
         | Inr bound \<Rightarrow>
             map_err (new_item item groupingKeys aggregatedProperties)
               [0..<(case bound of None \<Rightarrow> 0 | Some n \<Rightarrow> n)])"

definition ungroup :: "obj list \<Rightarrow> string list \<Rightarrow> error + obj list" where
  "ungroup array groupingKeys =
     (case map_err (ungroup_item groupingKeys) array of
        Inl e \<Rightarrow> Inl e
      | Inr newArrays \<Rightarrow> Inr (concat newArrays))"

section \<open>The batch orchestrator\<close>

text \<open>
  \<open>batchPredict(data, groupingKeys, xKey, yKey, newXs)\<close> of \<open>src/index.js\<close>. The test of
  the \<open>filter\<close> reads \<open>item[xKey].length\<close>, and \<open>undefined > 1\<close> is false.
\<close>

definition longer_than_one :: "string \<Rightarrow> obj \<Rightarrow> error + bool" where
  "longer_than_one xKey item =
     (case js_length (obj_get item xKey) of
        Inl e \<Rightarrow> Inl e
      | Inr l \<Rightarrow> Inr (case l of None \<Rightarrow> False | Some n \<Rightarrow> 1 < n))"




section \<open>The orchestrator that delegates the fit\<close>

text \<open>
  \<open>batchPredict\<close> of \<open>src/unnamed/part_000\<close>. It pairs the observations of a group and
  hands them to \<open>linearRegression\<close> and \<open>linearRegressionLine\<close> of the package
  \<open>simple-statistics\<close>, which is not part of the repository: \<open>fit\<close> stands for the
  composition of the two, from the array of pairs to the predictor. \<open>map\<close> exists on
  arrays only. The statement \<open>item[xKey] = newXs\<close> of \<open>src/index.js\<close> has no counterpart
  here. Projector, grouper, filter and ungrouper are the same as in \<open>src/index.js\<close>.
\<close>

definition predict_item_part_000 ::
    "(jsval \<Rightarrow> error + (jsval \<Rightarrow> jsval)) \<Rightarrow> string \<Rightarrow> string \<Rightarrow> jsval list \<Rightarrow> obj \<Rightarrow>
     error + obj" where
  "predict_item_part_000 fit xKey yKey newXs item =
     (case obj_get item xKey of
        Arr xs \<Rightarrow>
          (case map_err
                  (\<lambda>(x, i). case js_index (obj_get item yKey) i of
                       Inl e \<Rightarrow> Inl e
                     | Inr y \<Rightarrow> Inr (Arr [x, y]))
                  (zip xs [0..<length xs]) of
             Inl e \<Rightarrow> Inl e
           | Inr zipped \<Rightarrow>
               (case fit (Arr zipped) of
                  Inl e \<Rightarrow> Inl e
                | Inr predictor \<Rightarrow>
                    Inr (obj_set item yKey (Arr (map (\<lambda>y. predictor y) newXs)))))
      | _ \<Rightarrow> Inl TypeError)"

definition batchPredict_part_000 ::
    "host \<Rightarrow> (jsval \<Rightarrow> error + (jsval \<Rightarrow> jsval)) \<Rightarrow> obj list \<Rightarrow> string list \<Rightarrow> string \<Rightarrow>
     string \<Rightarrow> jsval list \<Rightarrow> error + obj list" where
  "batchPredict_part_000 h fit data groupingKeys xKey yKey newXs =
     (let allowedKeys = groupingKeys @ [xKey, yKey];
          data' = removeExtraProperties data allowedKeys
      in case group h data' groupingKeys of
           Inl e \<Rightarrow> Inl e
         | Inr grouped \<Rightarrow>
        (case filter_err (longer_than_one xKey) grouped of
           Inl e \<Rightarrow> Inl e
         | Inr groupedData \<Rightarrow>
        (case map_err (predict_item_part_000 fit xKey yKey newXs) groupedData of
           Inl e \<Rightarrow> Inl e
         | Inr predicted \<Rightarrow> ungroup predicted groupingKeys)))"

section \<open>Example data\<close>

text \<open>
  A host for evaluating examples: it writes and reads the integers in decimal, and the
  non-finite numbers by their names. It is used on nothing else below.
\<close>

fun nat_digits :: "nat \<Rightarrow> string" where
  "nat_digits n =
     (if n < 10 then [char_of (of_char CHR ''0'' + n)]
      else nat_digits (n div 10) @ [char_of (of_char CHR ''0'' + n mod 10)])"

declare nat_digits.simps [simp del]

definition example_number_to_string :: "jsnum \<Rightarrow> string" where
  "example_number_to_string n =
     (case n of
        Fin r \<Rightarrow> (if r < 0 then ''-'' else []) @ nat_digits (nat \<lfloor>\<bar>r\<bar>\<rfloor>)
      | PInf \<Rightarrow> ''Infinity''
      | NInf \<Rightarrow> ''-Infinity''
      | NaN \<Rightarrow> ''NaN'')"

definition example_string_to_number :: "string \<Rightarrow> jsnum" where
  "example_string_to_number s =
     (if list_all (\<lambda>c. c \<in> set ''0123456789'') s then Fin (real (index_value s)) else NaN)"

definition example_host :: host where
  "example_host =
     \<lparr>number_to_string = example_number_to_string,
      string_to_number = example_string_to_number\<rparr>"

definition num :: "real \<Rightarrow> jsval" where
  "num r = Num (Fin r)"

text \<open>The two-branch dataset of the README and of the documentation of \<open>batchPredict\<close>.\<close>

definition sale :: "string \<Rightarrow> real \<Rightarrow> real \<Rightarrow> obj" where
  "sale b p s = [(''branch'', Str b), (''period'', num p), (''sales'', num s)]"

definition inputData :: "obj list" where
  "inputData =
     [sale ''A'' 1 2, sale ''A'' 2 4, sale ''A'' 3 6,
      sale ''A'' 4 8, sale ''A'' 5 10, sale ''A'' 6 12,
      sale ''B'' 2 3, sale ''B'' 4 5, sale ''B'' 6 7,
      sale ''B'' 8 12, sale ''B'' 9 14, sale ''B'' 10 16]"


definition row :: "string \<Rightarrow> real \<Rightarrow> jsval \<Rightarrow> obj" where
  "row b p v = [(''branch'', Str b), (''period'', num p), (''sales'', v)]"

definition pairs :: "(real \<times> real) list \<Rightarrow> jsval" where
  "pairs ps = Arr (map (\<lambda>(x, y). Arr [num x, num y]) ps)"

section \<open>The orchestrator on a store\<close>

text \<open>
  The functions above pass objects and arrays by value. Whether \<open>batchPredict\<close> changes
  the objects of its caller depends on which object each write reaches, so the functions
  are given here once more on a store: every object and every array is a cell with an
  address, a value is a scalar or the address of a cell, and every write of the source
  (\<open>obj[key] = v\<close>, \<open>push\<close>, \<open>delete\<close>) changes one cell. \<open>[]\<close>, \<open>{}\<close>, \<open>[v]\<close> and the arrays
  returned by \<open>map\<close> and \<open>filter\<close> are new cells. As the specification has it, records hold
  scalars: where the source reads a value to compute with it (the composite key, the
  fit, \<open>length\<close>, an element), a sequence is read from its cell and anything else that is
  not a scalar is read as \<open>undefined\<close>. The iterating methods visit the elements that the
  array holds when they are called; no callback of the source writes to the array it
  iterates over.
\<close>

datatype hval = HUndefined | HNum jsnum | HStr string | HRef nat

datatype cell = Obj "(string \<times> hval) list" | Array "hval list"

type_synonym heap = "cell list"

type_synonym 'a prog = "heap \<Rightarrow> (error + 'a) \<times> heap"

definition ret :: "'a \<Rightarrow> 'a prog" where
  "ret x = (\<lambda>s. (Inr x, s))"

definition seq :: "'a prog \<Rightarrow> ('a \<Rightarrow> 'b prog) \<Rightarrow> 'b prog" where
  "seq m f = (\<lambda>s. case m s of (Inl e, s') \<Rightarrow> (Inl e, s') | (Inr x, s') \<Rightarrow> f x s')"

fun for_each :: "('a \<Rightarrow> unit prog) \<Rightarrow> 'a list \<Rightarrow> unit prog" where
  "for_each f [] = ret ()"
| "for_each f (x # xs) = seq (f x) (\<lambda>u. for_each f xs)"

fun map_prog :: "('a \<Rightarrow> 'b prog) \<Rightarrow> 'a list \<Rightarrow> 'b list prog" where
  "map_prog f [] = ret []"
| "map_prog f (x # xs) = seq (f x) (\<lambda>y. seq (map_prog f xs) (\<lambda>ys. ret (y # ys)))"

subsection \<open>Cells\<close>

text \<open>A new cell takes the next address.\<close>

definition new_cell :: "cell \<Rightarrow> hval prog" where
  "new_cell c = (\<lambda>s. (Inr (HRef (length s)), s @ [c]))"

definition cell_at :: "heap \<Rightarrow> hval \<Rightarrow> cell option" where
  "cell_at s v = (case v of HRef a \<Rightarrow> if a < length s then Some (s ! a) else None | _ \<Rightarrow> None)"

text \<open>
  The fields of an object and the elements of an array. Records and entries are objects
  and the arguments of the iterating methods are arrays; anything else in their place is
  reported as a \<open>TypeError\<close>.
\<close>

definition fields_of :: "hval \<Rightarrow> (string \<times> hval) list prog" where
  "fields_of v =
     (\<lambda>s. case cell_at s v of Some (Obj fs) \<Rightarrow> (Inr fs, s) | _ \<Rightarrow> (Inl TypeError, s))"

definition elems_of :: "hval \<Rightarrow> hval list prog" where
  "elems_of v =
     (\<lambda>s. case cell_at s v of Some (Array vs) \<Rightarrow> (Inr vs, s) | _ \<Rightarrow> (Inl TypeError, s))"

definition hobj_get :: "(string \<times> hval) list \<Rightarrow> string \<Rightarrow> hval" where
  "hobj_get fs key = (case map_of fs key of Some v \<Rightarrow> v | None \<Rightarrow> HUndefined)"

text \<open>The writes: \<open>obj[key] = v\<close>, \<open>delete obj[key]\<close> and \<open>arr.push(v)\<close>.\<close>

definition write_field :: "hval \<Rightarrow> string \<Rightarrow> hval \<Rightarrow> unit prog" where
  "write_field obj key v =
     (\<lambda>s. case (obj, cell_at s obj) of
        (HRef a, Some (Obj fs)) \<Rightarrow> (Inr (), s[a := Obj (obj_set fs key v)])
      | _ \<Rightarrow> (Inl TypeError, s))"

definition delete_field :: "hval \<Rightarrow> string \<Rightarrow> unit prog" where
  "delete_field obj key =
     (\<lambda>s. case (obj, cell_at s obj) of
        (HRef a, Some (Obj fs)) \<Rightarrow> (Inr (), s[a := Obj (obj_delete fs key)])
      | _ \<Rightarrow> (Inl TypeError, s))"

definition push :: "hval \<Rightarrow> hval \<Rightarrow> unit prog" where
  "push arr v =
     (\<lambda>s. case (arr, cell_at s arr) of
        (HRef a, Some (Array vs)) \<Rightarrow> (Inr (), s[a := Array (vs @ [v])])
      | _ \<Rightarrow> (Inl TypeError, s))"

subsection \<open>Reading values\<close>

fun scalar_val :: "hval \<Rightarrow> jsval" where
  "scalar_val HUndefined = Undefined"
| "scalar_val (HNum n) = Num n"
| "scalar_val (HStr s) = Str s"
| "scalar_val (HRef a) = Undefined"

definition read_val :: "heap \<Rightarrow> hval \<Rightarrow> jsval" where
  "read_val s v =
     (case cell_at s v of Some (Array vs) \<Rightarrow> Arr (map scalar_val vs) | _ \<Rightarrow> scalar_val v)"

fun hval_of :: "jsval \<Rightarrow> hval" where
  "hval_of Undefined = HUndefined"
| "hval_of (Num n) = HNum n"
| "hval_of (Str s) = HStr s"
| "hval_of (Arr vs) = HUndefined"

definition length_of :: "hval \<Rightarrow> nat option prog" where
  "length_of v = (\<lambda>s. (js_length (read_val s v), s))"

definition index_of :: "hval \<Rightarrow> nat \<Rightarrow> hval prog" where
  "index_of v i =
     (\<lambda>s. (case js_index (read_val s v) i of Inl e \<Rightarrow> Inl e | Inr w \<Rightarrow> Inr (hval_of w), s))"

subsection \<open>The functions of \<open>src/index.js\<close>\<close>

definition removeExtraProperties_h :: "hval \<Rightarrow> string list \<Rightarrow> hval prog" where
  "removeExtraProperties_h data allowedProperties =
     seq (elems_of data) (\<lambda>items.
     seq (map_prog
            (\<lambda>item.
               seq (fields_of item) (\<lambda>fs.
               seq (new_cell (Obj [])) (\<lambda>obj.
               seq (for_each (\<lambda>key. write_field obj key (hobj_get fs key))
                      (filter (\<lambda>key. key \<in> set allowedProperties) (object_keys fs))) (\<lambda>u.
               ret obj))))
            items) (\<lambda>objs.
     new_cell (Array objs)))"

definition group_step_h :: "host \<Rightarrow> string list \<Rightarrow> hval \<Rightarrow> hval \<Rightarrow> unit prog" where
  "group_step_h h groupingKeys result item =
     seq (fields_of item) (\<lambda>fs.
     if \<not> list_all (\<lambda>key. hasOwnProperty fs key) groupingKeys then ret ()
     else
       seq (\<lambda>s. (Inr (js_join h ''-'' (map (\<lambda>key. read_val s (hobj_get fs key)) groupingKeys)), s))
         (\<lambda>key.
       seq (elems_of result) (\<lambda>entries.
       seq (map_prog fields_of entries) (\<lambda>entry_fields.
       case find_index (\<lambda>efs. hobj_get efs ''key'' = HStr key) entry_fields of
         Some i \<Rightarrow>
           for_each
             (\<lambda>property.
                seq (fields_of (entries ! i)) (\<lambda>efs.
                push (hobj_get efs property) (hobj_get fs property)))
             (filter (\<lambda>key. key \<notin> set groupingKeys) (object_keys fs))
       | None \<Rightarrow>
           seq (new_cell (Obj [])) (\<lambda>newEntry.
           seq (for_each (\<lambda>k. write_field newEntry k (hobj_get fs k)) groupingKeys) (\<lambda>u.
           seq (for_each
                  (\<lambda>property.
                     seq (new_cell (Array [hobj_get fs property])) (\<lambda>arr.
                     write_field newEntry property arr))
                  (filter (\<lambda>key. key \<notin> set groupingKeys) (object_keys fs))) (\<lambda>u.
           seq (write_field newEntry ''key'' (HStr key)) (\<lambda>u.
           push result newEntry))))))))"

definition group_h :: "host \<Rightarrow> hval \<Rightarrow> string list \<Rightarrow> hval prog" where
  "group_h h array groupingKeys =
     seq (new_cell (Array [])) (\<lambda>result.
     seq (elems_of array) (\<lambda>items.
     seq (for_each (group_step_h h groupingKeys result) items) (\<lambda>u.
     seq (elems_of result) (\<lambda>entries.
     seq (for_each (\<lambda>item. delete_field item ''key'') entries) (\<lambda>u.
     new_cell (Array entries))))))"

definition new_item_h :: "hval \<Rightarrow> (string \<times> hval) list \<Rightarrow> string list \<Rightarrow> nat \<Rightarrow> unit prog" where
  "new_item_h newArray fs groupingKeys i =
     seq (new_cell (Obj [])) (\<lambda>newItem.
     seq (for_each (\<lambda>key. write_field newItem key (hobj_get fs key)) groupingKeys) (\<lambda>u.
     seq (for_each
            (\<lambda>property.
               seq (index_of (hobj_get fs property) i) (\<lambda>v.
               write_field newItem property v))
            (filter (\<lambda>key. key \<notin> set groupingKeys) (object_keys fs))) (\<lambda>u.
     push newArray newItem)))"

definition ungroup_h :: "hval \<Rightarrow> string list \<Rightarrow> hval prog" where
  "ungroup_h array groupingKeys =
     seq (new_cell (Array [])) (\<lambda>newArray.
     seq (elems_of array) (\<lambda>items.
     seq (for_each
            (\<lambda>item.
               seq (fields_of item) (\<lambda>fs.
               seq (length_of
                      (hobj_get fs
                         (case filter (\<lambda>key. key \<notin> set groupingKeys) (object_keys fs) of
                            [] \<Rightarrow> ''undefined'' | p # ps \<Rightarrow> p))) (\<lambda>bound.
               for_each (new_item_h newArray fs groupingKeys)
                 [0..<(case bound of None \<Rightarrow> 0 | Some n \<Rightarrow> n)])))
            items) (\<lambda>u.
     ret newArray)))"

definition longer_than_one_h :: "string \<Rightarrow> hval \<Rightarrow> bool prog" where
  "longer_than_one_h xKey item =
     seq (fields_of item) (\<lambda>fs.
     seq (length_of (hobj_get fs xKey)) (\<lambda>l.
     ret (case l of None \<Rightarrow> False | Some n \<Rightarrow> 1 < n)))"

definition predict_item_h :: "host \<Rightarrow> string \<Rightarrow> string \<Rightarrow> hval \<Rightarrow> hval \<Rightarrow> unit prog" where
  "predict_item_h h xKey yKey newXs item =
     seq (fields_of item) (\<lambda>fs.
     seq (\<lambda>s. (linearRegressionPredictor h (read_val s (hobj_get fs xKey))
                  (read_val s (hobj_get fs yKey)), s)) (\<lambda>predictor.
     seq (write_field item xKey newXs) (\<lambda>u.
     seq (elems_of newXs) (\<lambda>xs.
     seq (\<lambda>s. (Inr (map (\<lambda>y. hval_of (predictor (read_val s y))) xs), s)) (\<lambda>ys.
     seq (new_cell (Array ys)) (\<lambda>arr.
     write_field item yKey arr))))))"

definition batchPredict_h ::
    "host \<Rightarrow> hval \<Rightarrow> string list \<Rightarrow> string \<Rightarrow> string \<Rightarrow> hval \<Rightarrow> hval prog" where
  "batchPredict_h h data groupingKeys xKey yKey newXs =
     seq (removeExtraProperties_h data (groupingKeys @ [xKey, yKey])) (\<lambda>data'.
     seq (group_h h data' groupingKeys) (\<lambda>grouped.
     seq (elems_of grouped) (\<lambda>entries.
     seq (map_prog (longer_than_one_h xKey) entries) (\<lambda>keep.
     seq (new_cell (Array (map fst (filter snd (zip entries keep))))) (\<lambda>groupedData.
     seq (elems_of groupedData) (\<lambda>items.
     seq (for_each (predict_item_h h xKey yKey newXs) items) (\<lambda>u.
     seq (new_cell (Array items)) (\<lambda>predicted.
     ungroup_h predicted groupingKeys))))))))"

text \<open>
  The store of a call on the dataset of the README: the twelve records, the array that
  holds them and the array of the new values.
\<close>

definition sale_h :: "string \<Rightarrow> real \<Rightarrow> real \<Rightarrow> cell" where
  "sale_h b p s = Obj [(''branch'', HStr b), (''period'', HNum (Fin p)), (''sales'', HNum (Fin s))]"

definition readme_store :: heap where
  "readme_store =
     [sale_h ''A'' 1 2, sale_h ''A'' 2 4, sale_h ''A'' 3 6,
      sale_h ''A'' 4 8, sale_h ''A'' 5 10, sale_h ''A'' 6 12,
      sale_h ''B'' 2 3, sale_h ''B'' 4 5, sale_h ''B'' 6 7,
      sale_h ''B'' 8 12, sale_h ''B'' 9 14, sale_h ''B'' 10 16,
      Array (map HRef [0..<12]),
      Array [HNum (Fin 7), HNum (Fin 8)]]"

section \<open>The least-squares line of the specification\<close>

text \<open>
  The closed form as the specification words it: the arithmetic means of \<open>x\<close> and \<open>y\<close>,
  the slope, which is the sum of the products \<open>(x\<^sub>i - mean x) * (y\<^sub>i - mean y)\<close> divided by
  the sum of the squares \<open>(x\<^sub>i - mean x)\<^sup>2\<close>, and the intercept \<open>mean y - slope * mean x\<close>.
  \<open>num_sum\<close> is the sum of a sequence of numbers.
\<close>

definition num_sum :: "jsnum list \<Rightarrow> jsnum" where
  "num_sum xs = foldr num_add xs (Fin 0)"

definition arithmetic_mean :: "jsnum list \<Rightarrow> jsnum" where
  "arithmetic_mean xs = num_div (num_sum xs) (Fin (real (length xs)))"

definition ols_slope :: "jsnum list \<Rightarrow> jsnum list \<Rightarrow> jsnum" where
  "ols_slope xs ys =
     num_div
       (num_sum (map2 (\<lambda>x y. num_mul (num_sub x (arithmetic_mean xs))
                                (num_sub y (arithmetic_mean ys))) xs ys))
       (num_sum (map (\<lambda>x. num_mul (num_sub x (arithmetic_mean xs))
                              (num_sub x (arithmetic_mean xs))) xs))"


section \<open>Invariants of the grouper\<close>



definition record_ok :: "string list \<Rightarrow> obj \<Rightarrow> bool" where
  "record_ok ks r \<longleftrightarrow>
     distinct (object_keys r) \<and> (\<forall>k \<in> set ks. hasOwnProperty r k) \<and>
     (\<exists>p. hasOwnProperty r p \<and> p \<notin> set ks) \<and> \<not> hasOwnProperty r ''key''"





section \<open>Invariants of the store\<close>

text \<open>
  A call starts on the store \<open>s0\<close>. A value is fresh when it is not the address of a cell
  of \<open>s0\<close>, and the store is closed when the cells made since the start hold fresh values
  only. \<open>safe_record\<close> and \<open>scalar_records\<close> say of a record of \<open>s0\<close>, and of all records of
  the array \<open>data\<close>, that the fields hold no address: they hold scalars, as the
  specification's records do. \<open>triple s0 c m c' Q\<close> says of a run of \<open>m\<close> from a store that
  extends \<open>s0\<close> (and is closed, when \<open>c\<close> holds): the cells of \<open>s0\<close> are unchanged after it,
  whether it returns or throws, and when it returns \<open>x\<close> then \<open>Q x\<close> holds (and the store is
  closed, when \<open>c'\<close> holds).
\<close>

definition is_fresh :: "nat \<Rightarrow> hval \<Rightarrow> bool" where
  "is_fresh n v = (case v of HRef a \<Rightarrow> n \<le> a | _ \<Rightarrow> True)"

definition fresh_fields :: "nat \<Rightarrow> (string \<times> hval) list \<Rightarrow> bool" where
  "fresh_fields n fs = list_all (\<lambda>(k, v). is_fresh n v) fs"

definition cell_closed :: "nat \<Rightarrow> cell \<Rightarrow> bool" where
  "cell_closed n c =
     (case c of Obj fs \<Rightarrow> fresh_fields n fs | Array vs \<Rightarrow> list_all (is_fresh n) vs)"

definition closed :: "nat \<Rightarrow> heap \<Rightarrow> bool" where
  "closed n s = list_all (cell_closed n) (drop n s)"

definition safe_record :: "heap \<Rightarrow> hval \<Rightarrow> bool" where
  "safe_record s0 item =
     (case item of
        HRef r \<Rightarrow> (if r < length s0 then
                     (case s0 ! r of Obj fs \<Rightarrow> fresh_fields (length s0) fs | Array vs \<Rightarrow> True)
                   else True)
      | _ \<Rightarrow> True)"

definition scalar_records :: "heap \<Rightarrow> hval \<Rightarrow> bool" where
  "scalar_records s data =
     (case cell_at s data of
        Some (Array items) \<Rightarrow>
          list_all
            (\<lambda>item. case cell_at s item of
               Some (Obj fs) \<Rightarrow> list_all (\<lambda>(k, v). case v of HRef a \<Rightarrow> False | _ \<Rightarrow> True) fs
             | _ \<Rightarrow> True)
            items
      | _ \<Rightarrow> True)"

definition triple :: "heap \<Rightarrow> bool \<Rightarrow> 'a prog \<Rightarrow> bool \<Rightarrow> ('a \<Rightarrow> bool) \<Rightarrow> bool" where
  "triple s0 c m c' Q =
     (\<forall>s. take (length s0) s = s0 \<and> (c \<longrightarrow> closed (length s0) s) \<longrightarrow>
        (case m s of (r, s') \<Rightarrow>
           take (length s0) s' = s0 \<and>
           (case r of Inl e \<Rightarrow> True | Inr x \<Rightarrow> (c' \<longrightarrow> closed (length s0) s') \<and> Q x)))"

section \<open>Basic facts\<close>

subsection \<open>Sequencing\<close>


lemma reduce_err_error:
  "reduce_err f xs acc = Inl e \<Longrightarrow> \<exists>x \<in> set xs. \<exists>a. f a x = Inl e"
  by (induction xs arbitrary: acc) (auto split: sum.splits)

lemma map_err_error:
  "map_err f xs = Inl e \<Longrightarrow> \<exists>x \<in> set xs. f x = Inl e"
  by (induction xs) (auto split: sum.splits)

lemma map_err_Inl:
  assumes "x \<in> set xs" and "f x = Inl TypeError"
    and "\<And>y e. f y = Inl e \<Longrightarrow> e = TypeError"
  shows "map_err f xs = Inl TypeError"
  using assms(1,2)
proof (induction xs)
  case Nil
  then show ?case by simp
next
  case (Cons a xs)
  then show ?case
    by (cases "f a"; cases "map_err f xs") (auto dest: assms(3))
qed

subsection \<open>Objects\<close>

lemma obj_get_absent: "\<not> hasOwnProperty item key \<Longrightarrow> obj_get item key = Undefined"
proof -
  assume "\<not> hasOwnProperty item key"
  then have "map_of item key = None"
    by (simp add: hasOwnProperty_def object_keys_def map_of_eq_None_iff)
  then show ?thesis by (simp add: obj_get_def)
qed

lemma hasOwnProperty_obj_delete: "\<not> hasOwnProperty (obj_delete item key) key"
  by (auto simp: hasOwnProperty_def obj_delete_def object_keys_def)

subsection \<open>Only a \<open>TypeError\<close> leaves the ungrouper\<close>

lemma js_length_error: "js_length v = Inl e \<Longrightarrow> e = TypeError"
  by (cases v) auto

lemma js_index_error: "js_index v i = Inl e \<Longrightarrow> e = TypeError"
  by (cases v) auto

lemma new_item_error: "new_item item ks ps i = Inl e \<Longrightarrow> e = TypeError"
  by (auto simp: new_item_def dest!: reduce_err_error js_index_error split: sum.splits)

lemma ungroup_item_error: "ungroup_item ks item = Inl e \<Longrightarrow> e = TypeError"
  by (auto simp: ungroup_item_def Let_def
      dest!: map_err_error js_length_error new_item_error split: sum.splits)

section \<open>The README example\<close>



section \<open>The regressor's errors\<close>

text \<open>
  Claim C4. On two arrays, \<open>linearRegressionPredictor\<close> fails with \<open>InvalidInput\<close>
  exactly when the lengths differ or are zero, with \<open>InsufficientData\<close> exactly when
  both arrays hold one value, and returns a predictor exactly in the remaining case of
  equal lengths of at least two; the values in the arrays are not inspected.
\<close>

theorem linearRegressionPredictor_errors:
  "(linearRegressionPredictor h (Arr xs) (Arr ys) = Inl InvalidInput \<longleftrightarrow>
      length xs \<noteq> length ys \<or> length xs = 0) \<and>
   (linearRegressionPredictor h (Arr xs) (Arr ys) = Inl InsufficientData \<longleftrightarrow>
      length xs = 1 \<and> length ys = 1) \<and>
   ((\<exists>predictor. linearRegressionPredictor h (Arr xs) (Arr ys) = Inr predictor) \<longleftrightarrow>
      length xs = length ys \<and> 2 \<le> length xs)"
proof -
  have "length xs = 0 \<or> length xs = 1 \<or> 2 \<le> length xs" by arith
  then show ?thesis
    unfolding linearRegressionPredictor_def Let_def by auto
qed

theorem linearRegressionPredictor_errors_witness:
  "linearRegressionPredictor example_host (Arr [num 1, num 2]) (Arr [num 3]) = Inl InvalidInput \<and>
   linearRegressionPredictor example_host (Arr []) (Arr []) = Inl InvalidInput \<and>
   linearRegressionPredictor example_host (Arr [num 1]) (Arr [num 3]) = Inl InsufficientData \<and>
   (\<exists>predictor.
      linearRegressionPredictor example_host (Arr [num 4, num 4]) (Arr [num 3, num 5]) =
        Inr predictor)"
  using linearRegressionPredictor_errors [of example_host "[num 1, num 2]" "[num 3]"]
    linearRegressionPredictor_errors [of example_host "[]" "[]"]
    linearRegressionPredictor_errors [of example_host "[num 1]" "[num 3]"]
    linearRegressionPredictor_errors [of example_host "[num 4, num 4]" "[num 3, num 5]"]
  by simp

section \<open>The grouper\<close>




text \<open>
  Claim C9. No entry returned by \<open>group\<close> has a field named \<open>key\<close>: the final \<open>map\<close>
  deletes it from every entry, so a field of that name in the input records is lost.
\<close>

theorem group_no_key_field:
  "group h array groupingKeys = Inr entries \<Longrightarrow> entry \<in> set entries \<Longrightarrow>
   \<not> hasOwnProperty entry ''key''"
  by (auto simp: group_def hasOwnProperty_obj_delete split: sum.splits)

theorem group_no_key_field_witness:
  "group example_host [[(''branch'', Str ''A''), (''key'', Str ''u''), (''sales'', num 2)]]
     [''branch''] =
   Inr [[(''branch'', Str ''A''), (''sales'', Arr [num 2])]] \<and>
   \<not> hasOwnProperty [(''branch'', Str ''A''), (''sales'', Arr [num 2])] ''key''"
proof -
  have 1: "group example_host
      [[(''branch'', Str ''A''), (''key'', Str ''u''), (''sales'', num 2)]] [''branch''] =
    Inr [[(''branch'', Str ''A''), (''sales'', Arr [num 2])]]"
    by code_simp
  have 2: "[(''branch'', Str ''A''), (''sales'', Arr [num 2])] \<in>
    set [[(''branch'', Str ''A''), (''sales'', Arr [num 2])]]"
    by simp
  from 1 group_no_key_field [OF 1 2] show ?thesis by simp
qed

section \<open>The ungrouper\<close>

lemma ungroup_item_all_keys:
  assumes "set (object_keys entry) \<subseteq> set groupingKeys"
    and "\<not> hasOwnProperty entry ''undefined''"
  shows "ungroup_item groupingKeys entry = Inl TypeError"
proof -
  have "filter (\<lambda>key. key \<notin> set groupingKeys) (object_keys entry) = []"
    using assms(1) by (auto simp: filter_empty_conv)
  moreover have "obj_get entry ''undefined'' = Undefined"
    using assms(2) by (rule obj_get_absent)
  ultimately show ?thesis by (simp add: ungroup_item_def)
qed

text \<open>
  Claim C10, as amended. When some entry of the array has grouping keys as its only
  fields, and no field named \<open>undefined\<close>, \<open>ungroup\<close> throws a \<open>TypeError\<close> instead of
  returning records. So \<open>ungroup\<close> returns only when every entry has a field that is not
  a grouping key, or a field named \<open>undefined\<close>.
\<close>

theorem ungroup_all_keys_fails:
  "entry \<in> set array \<Longrightarrow> set (object_keys entry) \<subseteq> set groupingKeys \<Longrightarrow>
   \<not> hasOwnProperty entry ''undefined'' \<Longrightarrow> ungroup array groupingKeys = Inl TypeError"
  using map_err_Inl [of entry array "ungroup_item groupingKeys",
      OF _ ungroup_item_all_keys ungroup_item_error]
  by (simp add: ungroup_def)

theorem ungroup_all_keys_fails_witness:
  "ungroup [[(''branch'', Str ''A''), (''sales'', Arr [num 2])], [(''branch'', Str ''B'')]]
     [''branch''] = Inl TypeError"
  using ungroup_all_keys_fails [of "[(''branch'', Str ''B'')]"
      "[[(''branch'', Str ''A''), (''sales'', Arr [num 2])], [(''branch'', Str ''B'')]]"
      "[''branch'']"]
  by (simp add: object_keys_def hasOwnProperty_def)

text \<open>
  Claim C10 as stated fails on an entry whose only field is the grouping key
  \<open>undefined\<close>: the bound of the loop is then the length of that field's value, and
  \<open>ungroup\<close> returns one record for each character of the string.
\<close>

theorem ungroup_all_keys_returns:
  "set (object_keys [(''undefined'', Str ''ab'')]) \<subseteq> set [''undefined''] \<and>
   ungroup [[(''undefined'', Str ''ab'')]] [''undefined''] =
     Inr [[(''undefined'', Str ''ab'')], [(''undefined'', Str ''ab'')]]"
proof -
  have "ungroup [[(''undefined'', Str ''ab'')]] [''undefined''] =
     Inr [[(''undefined'', Str ''ab'')], [(''undefined'', Str ''ab'')]]"
    by code_simp
  then show ?thesis by (simp add: object_keys_def)
qed


section \<open>The fit of the regressor\<close>
















text \<open>
  On finite numbers the closed form is the one over the reals; its denominator vanishes
  exactly when the division is \<open>0 / 0\<close>.
\<close>

lemma num_sum_Fin: "num_sum (map Fin rs) = Fin (sum_list rs)"
  by (induction rs) (simp_all add: num_sum_def)

lemma arithmetic_mean_Fin:
  "rs \<noteq> [] \<Longrightarrow> arithmetic_mean (map Fin rs) = Fin (sum_list rs / real (length rs))"
  by (simp add: arithmetic_mean_def num_sum_Fin)

lemma sum_list_zero:
  fixes f :: "'a \<Rightarrow> real"
  shows "(\<And>z. z \<in> set zs \<Longrightarrow> f z = 0) \<Longrightarrow> sum_list (map f zs) = 0"
  by (induction zs) simp_all

lemma ols_slope_Fin:
  fixes xs ys :: "real list"
  assumes "length xs = length ys" and "xs \<noteq> []"
  defines "mx \<equiv> sum_list xs / real (length xs)"
    and "my \<equiv> sum_list ys / real (length ys)"
  defines "D \<equiv> (\<Sum>x\<leftarrow>xs. (x - mx)\<^sup>2)"
    and "N \<equiv> (\<Sum>(x, y)\<leftarrow>zip xs ys. (x - mx) * (y - my))"
  shows "ols_slope (map Fin xs) (map Fin ys) = (if D = 0 then NaN else Fin (N / D))"
proof -
  have ys: "ys \<noteq> []" using assms(1,2) by auto
  have num: "map2 (\<lambda>x y. num_mul (num_sub x (Fin mx)) (num_sub y (Fin my)))
        (map Fin xs) (map Fin ys) = map Fin (map (\<lambda>(x, y). (x - mx) * (y - my)) (zip xs ys))"
    by (simp add: zip_map_map num_sub_def case_prod_unfold)
  have den: "map (\<lambda>x. num_mul (num_sub x (Fin mx)) (num_sub x (Fin mx))) (map Fin xs) =
      map Fin (map (\<lambda>x. (x - mx)\<^sup>2) xs)"
    by (simp add: num_sub_def power2_eq_square)
  have slope: "ols_slope (map Fin xs) (map Fin ys) = num_div (Fin N) (Fin D)"
    unfolding ols_slope_def arithmetic_mean_Fin [OF assms(2)] arithmetic_mean_Fin [OF ys]
      mx_def [symmetric] my_def [symmetric] num den num_sum_Fin N_def D_def ..
  have "N = 0" if "D = 0"
  proof -
    have "\<forall>x \<in> set xs. (x - mx)\<^sup>2 = 0"
      using that unfolding D_def
      by (subst (asm) sum_list_nonneg_eq_0_iff) auto
    then have "\<forall>p \<in> set (zip xs ys). (case p of (x, y) \<Rightarrow> (x - mx) * (y - my)) = 0"
      by (auto dest: set_zip_leftD)
    then show ?thesis unfolding N_def
      by (intro sum_list_zero) auto
  qed
  then show ?thesis
    unfolding slope by (auto simp: inf_of_sign_def)
qed


section \<open>Reading and writing fields\<close>














lemma map_of_obj_delete:
  "map_of (obj_delete item key) = (map_of item)(key := None)"
proof
  fix k show "map_of (obj_delete item key) k = ((map_of item)(key := None)) k"
    by (induction item) (auto simp: obj_delete_def)
qed




section \<open>The two orchestrators\<close>

text \<open>
  Claim C3 at the dataset of the README, for any library whose fit returns a predictor
  \<open>line zipped\<close>. The orchestrator of \<open>src/unnamed/part_000\<close> leaves the observed
  periods in place, so the ungrouper emits one record for each observation: twelve
  records, whose sales are the two predictions followed by \<open>undefined\<close>. The orchestrator
  of \<open>src/index.js\<close> returns four records, for the periods 7 and 8 of each branch, as the
  documentation of both files has it.
\<close>

theorem batchPredict_part_000_readme:
  "batchPredict_part_000 h (\<lambda>zipped. Inr (line zipped)) inputData
     [''branch''] ''period'' ''sales'' [num 7, num 8] =
   Inr [row ''A'' 1 (line (pairs [(1, 2), (2, 4), (3, 6), (4, 8), (5, 10), (6, 12)]) (num 7)),
        row ''A'' 2 (line (pairs [(1, 2), (2, 4), (3, 6), (4, 8), (5, 10), (6, 12)]) (num 8)),
        row ''A'' 3 Undefined, row ''A'' 4 Undefined,
        row ''A'' 5 Undefined, row ''A'' 6 Undefined,
        row ''B'' 2 (line (pairs [(2, 3), (4, 5), (6, 7), (8, 12), (9, 14), (10, 16)]) (num 7)),
        row ''B'' 4 (line (pairs [(2, 3), (4, 5), (6, 7), (8, 12), (9, 14), (10, 16)]) (num 8)),
        row ''B'' 6 Undefined, row ''B'' 8 Undefined,
        row ''B'' 9 Undefined, row ''B'' 10 Undefined]"
  by code_simp


section \<open>Regressor errors in the orchestrator\<close>



lemma find_index_Some:
  "find_index P xs = Some i \<Longrightarrow> i < length xs \<and> P (xs ! i)"
  by (induction xs arbitrary: i) (auto split: if_splits)




subsection \<open>Appending to an existing entry\<close>




subsection \<open>Where the errors of the orchestrator come from\<close>











subsection \<open>The projected records\<close>


subsection \<open>The grouper keeps the two sequences equally long\<close>











section \<open>Grouping and ungrouping\<close>








lemma record_ok_key: "record_ok ks r \<Longrightarrow> ''key'' \<notin> set ks"
  by (auto simp: record_ok_def)
















section \<open>The orchestrator leaves the store of its caller unchanged\<close>

lemma tripleI:
  assumes "\<And>s r s'. take (length s0) s = s0 \<Longrightarrow> c \<longrightarrow> closed (length s0) s \<Longrightarrow> m s = (r, s') \<Longrightarrow>
    take (length s0) s' = s0 \<and> (\<forall>x. r = Inr x \<longrightarrow> (c' \<longrightarrow> closed (length s0) s') \<and> Q x)"
  shows "triple s0 c m c' Q"
  unfolding triple_def
proof (intro allI impI)
  fix s assume a: "take (length s0) s = s0 \<and> (c \<longrightarrow> closed (length s0) s)"
  obtain r s' where m: "m s = (r, s')" by (cases "m s")
  from a have "take (length s0) s = s0" "c \<longrightarrow> closed (length s0) s" by simp_all
  from assms [OF this m]
  show "case m s of (r, s') \<Rightarrow>
           take (length s0) s' = s0 \<and>
           (case r of Inl e \<Rightarrow> True | Inr x \<Rightarrow> (c' \<longrightarrow> closed (length s0) s') \<and> Q x)"
    unfolding m by (cases r) auto
qed

lemma tripleD:
  assumes "triple s0 c m c' Q" "take (length s0) s = s0" "c \<longrightarrow> closed (length s0) s"
    "m s = (r, s')"
  shows "take (length s0) s' = s0"
    and "r = Inr x \<Longrightarrow> c' \<longrightarrow> closed (length s0) s'"
    and "r = Inr x \<Longrightarrow> Q x"
proof -
  have "take (length s0) s = s0 \<and> (c \<longrightarrow> closed (length s0) s)"
    using assms(2,3) by simp
  from assms(1) [unfolded triple_def, rule_format, OF this]
  have *: "take (length s0) s' = s0 \<and>
      (case r of Inl e \<Rightarrow> True | Inr x \<Rightarrow> (c' \<longrightarrow> closed (length s0) s') \<and> Q x)"
    by (simp add: assms(4))
  then show "take (length s0) s' = s0" by simp
  from * show "r = Inr x \<Longrightarrow> c' \<longrightarrow> closed (length s0) s'" by simp
  from * show "r = Inr x \<Longrightarrow> Q x" by simp
qed

lemma triple_ret: "Q x \<Longrightarrow> triple s0 c (ret x) c Q"
  by (rule tripleI) (auto simp: ret_def)

lemma triple_seq:
  assumes m: "triple s0 c m c1 P" and f: "\<And>x. P x \<Longrightarrow> triple s0 c1 (f x) c' Q"
  shows "triple s0 c (seq m f) c' Q"
proof (rule tripleI)
  fix s r s'
  assume s: "take (length s0) s = s0" and cl: "c \<longrightarrow> closed (length s0) s"
    and run: "seq m f s = (r, s')"
  obtain r1 s1 where m1: "m s = (r1, s1)" by (cases "m s")
  note d = tripleD [OF m s cl m1]
  show "take (length s0) s' = s0 \<and> (\<forall>x. r = Inr x \<longrightarrow> (c' \<longrightarrow> closed (length s0) s') \<and> Q x)"
  proof (cases r1)
    case (Inl e)
    with run m1 have "r = Inl e" "s' = s1" by (simp_all add: seq_def)
    with d(1) show ?thesis by simp
  next
    case (Inr x)
    with run m1 have fx: "f x s1 = (r, s')" by (simp add: seq_def)
    from tripleD [OF f [OF d(3) [OF Inr]] d(1) d(2) [OF Inr] fx] show ?thesis by blast
  qed
qed

lemma triple_post:
  assumes "triple s0 c m c' P" and "\<And>x. P x \<Longrightarrow> Q x"
  shows "triple s0 c m c' Q"
proof (rule tripleI)
  fix s r s'
  assume "take (length s0) s = s0" "c \<longrightarrow> closed (length s0) s" "m s = (r, s')"
  from tripleD [OF assms(1) this] assms(2)
  show "take (length s0) s' = s0 \<and> (\<forall>x. r = Inr x \<longrightarrow> (c' \<longrightarrow> closed (length s0) s') \<and> Q x)"
    by blast
qed

lemma triple_forget:
  assumes "triple s0 c m c' Q"
  shows "triple s0 c m False Q"
proof (rule tripleI)
  fix s r s'
  assume "take (length s0) s = s0" "c \<longrightarrow> closed (length s0) s" "m s = (r, s')"
  from tripleD [OF assms(1) this]
  show "take (length s0) s' = s0 \<and> (\<forall>x. r = Inr x \<longrightarrow> (False \<longrightarrow> closed (length s0) s') \<and> Q x)"
    by blast
qed

lemma triple_assume:
  assumes "triple s0 False m c' Q"
  shows "triple s0 c m c' Q"
proof (rule tripleI)
  fix s r s'
  assume "take (length s0) s = s0" "m s = (r, s')"
  from tripleD [OF assms(1) this(1) _ this(2)]
  show "take (length s0) s' = s0 \<and> (\<forall>x. r = Inr x \<longrightarrow> (c' \<longrightarrow> closed (length s0) s') \<and> Q x)"
    by blast
qed

lemma triple_for_each:
  assumes "\<And>x. x \<in> set xs \<Longrightarrow> triple s0 c (f x) c (\<lambda>u. True)"
  shows "triple s0 c (for_each f xs) c (\<lambda>u. True)"
  using assms
proof (induction xs)
  case Nil
  show ?case by (simp add: triple_ret)
next
  case (Cons x xs)
  show ?case
    unfolding for_each.simps
    by (rule triple_seq [where P = "\<lambda>u. True" and ?c1.0 = c]) (simp_all add: Cons)
qed

lemma triple_map_prog:
  assumes "\<And>x. x \<in> set xs \<Longrightarrow> triple s0 c (f x) c Q"
  shows "triple s0 c (map_prog f xs) c (\<lambda>ys. length ys = length xs \<and> list_all Q ys)"
  using assms
proof (induction xs)
  case Nil
  show ?case by (simp add: triple_ret)
next
  case (Cons x xs)
  show ?case
    unfolding map_prog.simps
  proof (rule triple_seq [where P = Q and ?c1.0 = c])
    show "triple s0 c (f x) c Q" by (simp add: Cons.prems)
  next
    fix y assume y: "Q y"
    show "triple s0 c (seq (map_prog f xs) (\<lambda>ys. ret (y # ys))) c
        (\<lambda>ys. length ys = length (x # xs) \<and> list_all Q ys)"
    proof (rule triple_seq [where P = "\<lambda>ys. length ys = length xs \<and> list_all Q ys" and ?c1.0 = c])
      show "triple s0 c (map_prog f xs) c (\<lambda>ys. length ys = length xs \<and> list_all Q ys)"
        by (rule Cons.IH) (simp add: Cons.prems)
    next
      fix ys assume "length ys = length xs \<and> list_all Q ys"
      with y show "triple s0 c (ret (y # ys)) c
          (\<lambda>ys. length ys = length (x # xs) \<and> list_all Q ys)"
        by (intro triple_ret) simp
    qed
  qed
qed

subsection \<open>Steps that only read\<close>

lemma triple_read:
  assumes "\<And>s. snd (m s) = s"
    and "\<And>s x. take (length s0) s = s0 \<Longrightarrow> c \<longrightarrow> closed (length s0) s \<Longrightarrow> m s = (Inr x, s) \<Longrightarrow> Q x"
  shows "triple s0 c m c Q"
proof (rule tripleI)
  fix s r s'
  assume s: "take (length s0) s = s0" and cl: "c \<longrightarrow> closed (length s0) s" and run: "m s = (r, s')"
  from assms(1) [of s] run have "s' = s" by simp
  with s cl run assms(2) [OF s cl] show
    "take (length s0) s' = s0 \<and> (\<forall>x. r = Inr x \<longrightarrow> (c \<longrightarrow> closed (length s0) s') \<and> Q x)"
    by auto
qed


subsection \<open>Closed stores\<close>

lemma base_length:
  assumes "take (length s0) s = s0"
  shows "length s0 \<le> length s"
proof -
  have "length (take (length s0) s) = length s0" using assms by simp
  then show ?thesis by (simp add: min_def split: if_splits)
qed

lemma closed_append:
  "closed n s \<Longrightarrow> cell_closed n c \<Longrightarrow> n \<le> length s \<Longrightarrow> closed n (s @ [c])"
  by (simp add: closed_def)

lemma closed_update:
  assumes "closed n s" "n \<le> a" "cell_closed n c"
  shows "closed n (s[a := c])"
proof -
  have "set ((drop n s)[a - n := c]) \<subseteq> insert c (set (drop n s))"
    by (rule set_update_subset_insert)
  with assms show ?thesis
    by (auto simp: closed_def drop_update_swap list_all_iff)
qed

lemma closed_cell:
  assumes "closed n s" "n \<le> a" "a < length s"
  shows "cell_closed n (s ! a)"
proof -
  have "s ! a = drop n s ! (a - n)" using assms(2,3) by simp
  moreover have "a - n < length (drop n s)" using assms(2,3) by simp
  ultimately show ?thesis using assms(1) by (simp add: closed_def list_all_length)
qed

lemma fresh_fields_obj_set:
  assumes "fresh_fields n fs" "is_fresh n v"
  shows "fresh_fields n (obj_set fs key v)"
proof -
  have "set (obj_set fs key v) \<subseteq> insert (key, v) (set fs)"
    by (auto simp: obj_set_def dest: set_takeWhileD set_dropWhileD split: if_splits)
  with assms show ?thesis by (auto simp: fresh_fields_def list_all_iff)
qed

lemma fresh_fields_obj_delete: "fresh_fields n fs \<Longrightarrow> fresh_fields n (obj_delete fs key)"
  by (auto simp: fresh_fields_def obj_delete_def list_all_iff)

lemma is_fresh_hobj_get: "fresh_fields n fs \<Longrightarrow> is_fresh n (hobj_get fs key)"
  by (auto simp: fresh_fields_def hobj_get_def list_all_iff is_fresh_def
      dest!: map_of_SomeD split: option.splits)

lemma is_fresh_scalar [simp]:
  "is_fresh n HUndefined" "is_fresh n (HNum x)" "is_fresh n (HStr t)"
  "is_fresh n (HRef a) \<longleftrightarrow> n \<le> a"
  by (simp_all add: is_fresh_def)

subsection \<open>Steps that make or change a cell\<close>

lemma triple_new_cell:
  assumes "c \<longrightarrow> cell_closed (length s0) cl"
  shows "triple s0 c (new_cell cl) c (is_fresh (length s0))"
proof (rule tripleI)
  fix s r s'
  assume s: "take (length s0) s = s0" and cl: "c \<longrightarrow> closed (length s0) s"
    and run: "new_cell cl s = (r, s')"
  note len = base_length [OF s]
  from run have r: "r = Inr (HRef (length s))" and s': "s' = s @ [cl]"
    by (simp_all add: new_cell_def)
  from s len have "take (length s0) s' = s0" by (simp add: s')
  moreover have "c \<longrightarrow> closed (length s0) s'"
    using assms cl len by (auto simp: s' intro: closed_append)
  ultimately show "take (length s0) s' = s0 \<and>
      (\<forall>x. r = Inr x \<longrightarrow> (c \<longrightarrow> closed (length s0) s') \<and> is_fresh (length s0) x)"
    using r len by auto
qed

lemma triple_update:
  assumes m: "\<And>s. m s = (Inl TypeError, s) \<or>
      (\<exists>a cl. v = HRef a \<and> a < length s \<and> m s = (Inr (), s[a := f (s ! a)]))"
    and v: "is_fresh (length s0) v"
    and f: "\<And>cl. c \<Longrightarrow> cell_closed (length s0) cl \<Longrightarrow> cell_closed (length s0) (f cl)"
  shows "triple s0 c m c (\<lambda>u. True)"
proof (rule tripleI)
  fix s r s'
  assume s: "take (length s0) s = s0" and cl: "c \<longrightarrow> closed (length s0) s"
    and run: "m s = (r, s')"
  from m [of s] show "take (length s0) s' = s0 \<and>
      (\<forall>x. r = Inr x \<longrightarrow> (c \<longrightarrow> closed (length s0) s') \<and> True)"
  proof
    assume "m s = (Inl TypeError, s)"
    with run s show ?thesis by auto
  next
    assume "\<exists>a cl. v = HRef a \<and> a < length s \<and> m s = (Inr (), s[a := f (s ! a)])"
    then obtain a where a: "v = HRef a" "a < length s" and ms: "m s = (Inr (), s[a := f (s ! a)])"
      by blast
    from v a have na: "length s0 \<le> a" by simp
    from ms run have s': "s' = s[a := f (s ! a)]" by simp
    have "take (length s0) s' = s0" using na s by (simp add: s')
    moreover have "closed (length s0) s'" if c
      unfolding s' using cl that na a(2)
      by (intro closed_update f closed_cell) simp_all
    ultimately show ?thesis by simp
  qed
qed

lemma triple_write_field:
  assumes "is_fresh (length s0) obj" and "c \<longrightarrow> is_fresh (length s0) v"
  shows "triple s0 c (write_field obj key v) c (\<lambda>u. True)"
proof (rule triple_update [where v = obj and f = "\<lambda>cl. case cl of Obj fs \<Rightarrow> Obj (obj_set fs key v) | Array vs \<Rightarrow> Array vs"])
  fix s
  show "write_field obj key v s = (Inl TypeError, s) \<or>
      (\<exists>a cl. obj = HRef a \<and> a < length s \<and>
         write_field obj key v s =
           (Inr (), s[a := case s ! a of Obj fs \<Rightarrow> Obj (obj_set fs key v) | Array vs \<Rightarrow> Array vs]))"
    by (auto simp: write_field_def cell_at_def split: hval.splits cell.splits option.splits)
next
  show "is_fresh (length s0) obj" by fact
next
  fix cl assume c "cell_closed (length s0) cl"
  with assms(2) show "cell_closed (length s0)
      (case cl of Obj fs \<Rightarrow> Obj (obj_set fs key v) | Array vs \<Rightarrow> Array vs)"
    by (auto simp: cell_closed_def fresh_fields_obj_set split: cell.splits)
qed

lemma triple_delete_field:
  assumes "is_fresh (length s0) obj"
  shows "triple s0 c (delete_field obj key) c (\<lambda>u. True)"
proof (rule triple_update [where v = obj and f = "\<lambda>cl. case cl of Obj fs \<Rightarrow> Obj (obj_delete fs key) | Array vs \<Rightarrow> Array vs"])
  fix s
  show "delete_field obj key s = (Inl TypeError, s) \<or>
      (\<exists>a cl. obj = HRef a \<and> a < length s \<and>
         delete_field obj key s =
           (Inr (), s[a := case s ! a of Obj fs \<Rightarrow> Obj (obj_delete fs key) | Array vs \<Rightarrow> Array vs]))"
    by (auto simp: delete_field_def cell_at_def split: hval.splits cell.splits option.splits)
next
  show "is_fresh (length s0) obj" by fact
next
  fix cl assume "cell_closed (length s0) cl"
  then show "cell_closed (length s0)
      (case cl of Obj fs \<Rightarrow> Obj (obj_delete fs key) | Array vs \<Rightarrow> Array vs)"
    by (auto simp: cell_closed_def fresh_fields_obj_delete split: cell.splits)
qed

lemma triple_push:
  assumes "is_fresh (length s0) arr" and "c \<longrightarrow> is_fresh (length s0) v"
  shows "triple s0 c (push arr v) c (\<lambda>u. True)"
proof (rule triple_update [where v = arr and f = "\<lambda>cl. case cl of Obj fs \<Rightarrow> Obj fs | Array vs \<Rightarrow> Array (vs @ [v])"])
  fix s
  show "push arr v s = (Inl TypeError, s) \<or>
      (\<exists>a cl. arr = HRef a \<and> a < length s \<and>
         push arr v s =
           (Inr (), s[a := case s ! a of Obj fs \<Rightarrow> Obj fs | Array vs \<Rightarrow> Array (vs @ [v])]))"
    by (auto simp: push_def cell_at_def split: hval.splits cell.splits option.splits)
next
  show "is_fresh (length s0) arr" by fact
next
  fix cl assume c "cell_closed (length s0) cl"
  with assms(2) show "cell_closed (length s0)
      (case cl of Obj fs \<Rightarrow> Obj fs | Array vs \<Rightarrow> Array (vs @ [v]))"
    by (auto simp: cell_closed_def split: cell.splits)
qed


subsection \<open>What a read returns\<close>

lemma is_fresh_safe_record: "is_fresh (length s0) item \<Longrightarrow> safe_record s0 item"
  by (auto simp: safe_record_def split: hval.splits)

lemma old_cell: "take (length s0) s = s0 \<Longrightarrow> a < length s0 \<Longrightarrow> s ! a = s0 ! a"
  by (metis nth_take)

lemma triple_fields_of:
  assumes "safe_record s0 item"
  shows "triple s0 True (fields_of item) True (fresh_fields (length s0))"
proof (rule triple_read)
  show "snd (fields_of item s) = s" for s
    by (simp add: fields_of_def split: option.splits cell.splits)
next
  fix s fs
  assume s: "take (length s0) s = s0" and cl: "True \<longrightarrow> closed (length s0) s"
    and run: "fields_of item s = (Inr fs, s)"
  from run obtain a where a: "item = HRef a" "a < length s" "s ! a = Obj fs"
    by (auto simp: fields_of_def cell_at_def split: hval.splits option.splits cell.splits if_splits)
  show "fresh_fields (length s0) fs"
  proof (cases "a < length s0")
    case True
    have "s0 ! a = Obj fs" using old_cell [OF s True] a(3) by simp
    with True a(1) assms show ?thesis
      by (simp add: safe_record_def)
  next
    case False
    with closed_cell [of "length s0" s a] cl a show ?thesis
      by (simp add: cell_closed_def)
  qed
qed

lemma triple_elems_of:
  assumes "is_fresh (length s0) v"
  shows "triple s0 True (elems_of v) True (list_all (is_fresh (length s0)))"
proof (rule triple_read)
  show "snd (elems_of v s) = s" for s
    by (simp add: elems_of_def split: option.splits cell.splits)
next
  fix s vs
  assume s: "take (length s0) s = s0" and cl: "True \<longrightarrow> closed (length s0) s"
    and run: "elems_of v s = (Inr vs, s)"
  from run obtain a where a: "v = HRef a" "a < length s" "s ! a = Array vs"
    by (auto simp: elems_of_def cell_at_def split: hval.splits option.splits cell.splits if_splits)
  with assms closed_cell [of "length s0" s a] cl show "list_all (is_fresh (length s0)) vs"
    by (simp add: cell_closed_def)
qed

lemma triple_elems_of_data:
  assumes "scalar_records s0 data"
  shows "triple s0 True (elems_of data) True (list_all (safe_record s0))"
proof (rule triple_read)
  show "snd (elems_of data s) = s" for s
    by (simp add: elems_of_def split: option.splits cell.splits)
next
  fix s items
  assume s: "take (length s0) s = s0" and cl: "True \<longrightarrow> closed (length s0) s"
    and run: "elems_of data s = (Inr items, s)"
  from run obtain d where d: "data = HRef d" "d < length s" "s ! d = Array items"
    by (auto simp: elems_of_def cell_at_def split: hval.splits option.splits cell.splits if_splits)
  show "list_all (safe_record s0) items"
  proof (cases "d < length s0")
    case True
    have "s0 ! d = Array items" using old_cell [OF s True] d(3) by simp
    with True d(1) assms
    have all: "list_all (\<lambda>item. case cell_at s0 item of
        Some (Obj fs) \<Rightarrow> list_all (\<lambda>(k, v). case v of HRef a \<Rightarrow> False | _ \<Rightarrow> True) fs
      | _ \<Rightarrow> True) items"
      by (simp add: scalar_records_def cell_at_def)
    show ?thesis
      unfolding list_all_iff
    proof
      fix item assume "item \<in> set items"
      with all have "case cell_at s0 item of
          Some (Obj fs) \<Rightarrow> list_all (\<lambda>(k, v). case v of HRef a \<Rightarrow> False | _ \<Rightarrow> True) fs
        | _ \<Rightarrow> True"
        by (simp add: list_all_iff)
      then show "safe_record s0 item"
        by (fastforce simp: safe_record_def cell_at_def fresh_fields_def list_all_iff is_fresh_def
            split: hval.splits cell.splits if_splits)
    qed
  next
    case False
    with closed_cell [of "length s0" s d] cl d
    have "list_all (is_fresh (length s0)) items"
      by (simp add: cell_closed_def)
    then show ?thesis
      by (auto simp: list_all_iff intro: is_fresh_safe_record)
  qed
qed

lemma triple_pure:
  assumes "\<And>s. snd (m s) = s"
  shows "triple s0 c m c (\<lambda>u. True)"
  by (rule triple_read) (simp_all add: assms)

lemma pure_reads:
  "snd (fields_of v s) = s" "snd (elems_of v s) = s" "snd (length_of v s) = s"
  "snd (index_of v i s) = s"
  by (simp_all add: fields_of_def elems_of_def length_of_def index_of_def
      split: option.splits cell.splits)

subsection \<open>A step and the rest of the program\<close>

lemma seq_pure:
  assumes "\<And>s. snd (m s) = s" and "\<And>x. triple s0 c (f x) c' Q"
  shows "triple s0 c (seq m f) c' Q"
  by (rule triple_seq [OF triple_pure [OF assms(1)]]) (rule assms(2))

lemma seq_fields_of:
  assumes "safe_record s0 item"
    and "\<And>fs. fresh_fields (length s0) fs \<Longrightarrow> triple s0 True (f fs) c' Q"
  shows "triple s0 True (seq (fields_of item) f) c' Q"
  by (rule triple_seq [OF triple_fields_of [OF assms(1)]]) (rule assms(2))

lemma seq_elems_of:
  assumes "is_fresh (length s0) v"
    and "\<And>vs. list_all (is_fresh (length s0)) vs \<Longrightarrow> triple s0 True (f vs) c' Q"
  shows "triple s0 True (seq (elems_of v) f) c' Q"
  by (rule triple_seq [OF triple_elems_of [OF assms(1)]]) (rule assms(2))

lemma seq_new_cell:
  assumes "c \<longrightarrow> cell_closed (length s0) cl"
    and "\<And>v. is_fresh (length s0) v \<Longrightarrow> triple s0 c (f v) c' Q"
  shows "triple s0 c (seq (new_cell cl) f) c' Q"
  by (rule triple_seq [OF triple_new_cell [OF assms(1)]]) (rule assms(2))

lemma seq_unit:
  assumes "triple s0 c m c (\<lambda>u. True)" and "\<And>u. triple s0 c (f u) c' Q"
  shows "triple s0 c (seq m f) c' Q"
  by (rule triple_seq [OF assms(1)]) (rule assms(2))


lemma triple_if:
  assumes "b \<Longrightarrow> triple s0 c m1 c' Q" and "\<not> b \<Longrightarrow> triple s0 c m2 c' Q"
  shows "triple s0 c (if b then m1 else m2) c' Q"
  using assms by simp

lemma triple_case_option:
  assumes "x = None \<Longrightarrow> triple s0 c m1 c' Q" and "\<And>i. x = Some i \<Longrightarrow> triple s0 c (m2 i) c' Q"
  shows "triple s0 c (case x of None \<Rightarrow> m1 | Some i \<Rightarrow> m2 i) c' Q"
  using assms by (cases x) simp_all

lemma closed_empty [simp]:
  "cell_closed n (Obj [])" "cell_closed n (Array [])"
  by (simp_all add: cell_closed_def fresh_fields_def)

subsection \<open>The functions\<close>

lemma triple_removeExtraProperties_h:
  assumes "scalar_records s0 data"
  shows "triple s0 True (removeExtraProperties_h data allowed) True (is_fresh (length s0))"
  unfolding removeExtraProperties_h_def
  apply (rule triple_seq [OF triple_elems_of_data [OF assms]])
  apply (rule triple_seq [OF triple_map_prog [where Q = "is_fresh (length s0)"]])
   apply (rule seq_fields_of)
    apply (simp add: list_all_iff)
   apply (rule seq_new_cell)
    apply simp
   apply (rule seq_unit)
    apply (rule triple_for_each)
    apply (rule triple_write_field)
     apply assumption
    apply (simp add: is_fresh_hobj_get)
   apply (rule triple_ret)
   apply assumption
  apply (rule triple_new_cell)
  apply (simp add: cell_closed_def)
  done

lemma triple_group_step_h:
  assumes "is_fresh (length s0) result" and "is_fresh (length s0) item"
  shows "triple s0 True (group_step_h h groupingKeys result item) True (\<lambda>u. True)"
  unfolding group_step_h_def
  apply (rule seq_fields_of)
   apply (rule is_fresh_safe_record [OF assms(2)])
  apply (rule triple_if)
   apply (rule triple_ret)
   apply simp
  apply (rule seq_pure)
   apply simp
  apply (rule seq_elems_of [OF assms(1)])
  apply (rule triple_seq [OF triple_map_prog [where Q = "\<lambda>u. True"]])
   apply (rule triple_pure)
   apply (simp add: pure_reads)
  apply (rule triple_case_option)
   apply (rule seq_new_cell)
    apply simp
   apply (rule seq_unit)
    apply (rule triple_for_each)
    apply (rule triple_write_field)
     apply assumption
    apply (simp add: is_fresh_hobj_get)
   apply (rule seq_unit)
    apply (rule triple_for_each)
    apply (rule seq_new_cell)
     apply (simp add: cell_closed_def is_fresh_hobj_get)
    apply (rule triple_write_field)
     apply assumption
    apply simp
   apply (rule seq_unit)
    apply (rule triple_write_field)
     apply assumption
    apply simp
   apply (rule triple_push)
    apply (rule assms(1))
   apply simp
  apply (rule triple_for_each)
  apply (rule seq_fields_of)
   apply (rule is_fresh_safe_record)
   apply (drule find_index_Some)
   apply (simp add: list_all_length)
  apply (rule triple_push)
   apply (simp add: is_fresh_hobj_get)
  apply (simp add: is_fresh_hobj_get)
  done


lemma triple_group_h:
  assumes "is_fresh (length s0) array"
  shows "triple s0 True (group_h h array groupingKeys) True (is_fresh (length s0))"
  unfolding group_h_def
  apply (rule seq_new_cell)
   apply simp
  apply (rule seq_elems_of [OF assms])
  apply (rule seq_unit)
   apply (rule triple_for_each)
   apply (rule triple_group_step_h)
    apply assumption
   apply (simp add: list_all_iff)
  apply (rule seq_elems_of)
   apply assumption
  apply (rule seq_unit)
   apply (rule triple_for_each)
   apply (rule triple_delete_field)
   apply (simp add: list_all_iff)
  apply (rule triple_new_cell)
  apply (simp add: cell_closed_def)
  done

lemma triple_new_item_h:
  assumes "is_fresh (length s0) newArray"
  shows "triple s0 False (new_item_h newArray fs groupingKeys i) False (\<lambda>u. True)"
  unfolding new_item_h_def
  apply (rule seq_new_cell)
   apply simp
  apply (rule seq_unit)
   apply (rule triple_for_each)
   apply (rule triple_write_field)
    apply assumption
   apply simp
  apply (rule seq_unit)
   apply (rule triple_for_each)
   apply (rule seq_pure)
    apply (simp add: pure_reads)
   apply (rule triple_write_field)
    apply assumption
   apply simp
  apply (rule triple_push)
   apply (rule assms)
  apply simp
  done

lemma triple_ungroup_h:
  "triple s0 False (ungroup_h array groupingKeys) False (\<lambda>u. True)"
  unfolding ungroup_h_def
  apply (rule seq_new_cell)
   apply simp
  apply (rule seq_pure)
   apply (simp add: pure_reads)
  apply (rule seq_unit)
   apply (rule triple_for_each)
   apply (rule seq_pure)
    apply (simp add: pure_reads)
   apply (rule seq_pure)
    apply (simp add: pure_reads)
   apply (rule triple_for_each)
   apply (rule triple_new_item_h)
   apply assumption
  apply (rule triple_ret)
  apply simp
  done

lemma longer_than_one_h_pure: "snd (longer_than_one_h xKey item s) = s"
  by (simp add: longer_than_one_h_def seq_def ret_def fields_of_def length_of_def
      split: option.splits cell.splits sum.splits prod.splits)

lemma triple_predict_item_h:
  assumes "is_fresh (length s0) item"
  shows "triple s0 False (predict_item_h h xKey yKey newXs item) False (\<lambda>u. True)"
  unfolding predict_item_h_def
  apply (rule seq_pure)
   apply (simp add: pure_reads)
  apply (rule seq_pure)
   apply simp
  apply (rule seq_unit)
   apply (rule triple_write_field)
    apply (rule assms)
   apply simp
  apply (rule seq_pure)
   apply (simp add: pure_reads)
  apply (rule seq_pure)
   apply simp
  apply (rule seq_new_cell)
   apply simp
  apply (rule triple_write_field)
   apply (rule assms)
  apply simp
  done

lemma triple_batchPredict_h:
  assumes "scalar_records s0 data"
  shows "triple s0 True (batchPredict_h h data groupingKeys xKey yKey newXs) False (\<lambda>u. True)"
  unfolding batchPredict_h_def
  apply (rule triple_seq [OF triple_removeExtraProperties_h [OF assms]])
  apply (rule triple_seq [OF triple_group_h])
   apply assumption
  apply (rule seq_elems_of)
   apply assumption
  apply (rule triple_seq [OF triple_map_prog [where Q = "\<lambda>u. True"]])
   apply (rule triple_pure)
   apply (rule longer_than_one_h_pure)
  apply (rule seq_new_cell)
   apply (auto simp: cell_closed_def list_all_iff dest!: set_zip_leftD) [1]
  apply (rule seq_elems_of)
   apply assumption
  apply (rule triple_assume)
  apply (rule seq_unit)
   apply (rule triple_for_each)
   apply (rule triple_predict_item_h)
   apply (simp add: list_all_iff)
  apply (rule seq_new_cell)
   apply simp
  apply (rule triple_ungroup_h)
  done

text \<open>
  Claim C8. A call of \<open>batchPredict\<close> on records that hold scalars changes no cell that
  exists when it starts, whether it returns or throws: every record of its argument, the
  array of the records and the array of the new values have exactly the fields, the
  elements and the values they had before the call.
\<close>

theorem batchPredict_h_frame:
  assumes "scalar_records s data"
  shows "take (length s) (snd (batchPredict_h h data groupingKeys xKey yKey newXs s)) = s"
proof -
  obtain r s' where run: "batchPredict_h h data groupingKeys xKey yKey newXs s = (r, s')"
    by (cases "batchPredict_h h data groupingKeys xKey yKey newXs s")
  have "True \<longrightarrow> closed (length s) s" by (simp add: closed_def)
  from tripleD(1) [OF triple_batchPredict_h [OF assms] _ this run] run
  show ?thesis by simp
qed

theorem batchPredict_h_frame_witness:
  "take (length readme_store)
     (snd (batchPredict_h example_host (HRef 12) [''branch''] ''period'' ''sales'' (HRef 13)
        readme_store)) = readme_store"
proof -
  have "scalar_records readme_store (HRef 12)"
    by code_simp
  then show ?thesis by (rule batchPredict_h_frame)
qed


text \<open>
  On the store of the README the call returns the address of a new array of four new
  records, the ones that the orchestrator on values returns. On records of one group
  with sequences of different lengths it throws as the orchestrator on values does.
\<close>

lemma batchPredict_h_readme:
  "fst (batchPredict_h example_host (HRef 12) [''branch''] ''period'' ''sales'' (HRef 13)
      readme_store) = Inr (HRef 39) \<and>
   drop 39 (snd (batchPredict_h example_host (HRef 12) [''branch''] ''period'' ''sales''
      (HRef 13) readme_store)) =
     [Array [HRef 40, HRef 41, HRef 42, HRef 43],
      Obj [(''branch'', HStr ''A''), (''period'', HNum (Fin 7)), (''sales'', HNum (Fin 14))],
      Obj [(''branch'', HStr ''A''), (''period'', HNum (Fin 8)), (''sales'', HNum (Fin 16))],
      Obj [(''branch'', HStr ''B''), (''period'', HNum (Fin 7)),
           (''sales'', HNum (Fin (982 / 95)))],
      Obj [(''branch'', HStr ''B''), (''period'', HNum (Fin 8)),
           (''sales'', HNum (Fin (1141 / 95)))]]"
  by code_simp


lemma batchPredict_h_throws:
  "fst (batchPredict_h example_host (HRef 2) [''branch''] ''period'' ''sales'' (HRef 3)
      [Obj [(''branch'', HStr ''A''), (''period'', HNum (Fin 1)), (''sales'', HNum (Fin 2))],
       Obj [(''branch'', HStr ''A''), (''period'', HNum (Fin 2))],
       Array [HRef 0, HRef 1],
       Array [HNum (Fin 7), HNum (Fin 8)]]) = Inl InvalidInput"
  by code_simp


section \<open>The examples of the documentation\<close>

text \<open>
  The examples in the documentation comments of \<open>group\<close>, \<open>ungroup\<close> and
  \<open>removeExtraProperties\<close>, evaluated on the model.
\<close>

lemma group_example:
  "group example_host
     [[(''name'', Str ''John''), (''age'', num 25), (''city'', Str ''New York'')],
      [(''name'', Str ''Jane''), (''age'', num 30), (''city'', Str ''San Francisco'')],
      [(''name'', Str ''Bob''), (''age'', num 25), (''city'', Str ''New York'')],
      [(''name'', Str ''Alice''), (''age'', num 30), (''city'', Str ''San Francisco'')]]
     [''city'', ''age''] =
   Inr [[(''city'', Str ''New York''), (''age'', num 25),
         (''name'', Arr [Str ''John'', Str ''Bob''])],
        [(''city'', Str ''San Francisco''), (''age'', num 30),
         (''name'', Arr [Str ''Jane'', Str ''Alice''])]]"
  by code_simp

lemma ungroup_example:
  "ungroup
     [[(''city'', Str ''New York''), (''age'', num 25),
       (''name'', Arr [Str ''John'', Str ''Bob''])],
      [(''city'', Str ''San Francisco''), (''age'', num 30),
       (''name'', Arr [Str ''Jane'', Str ''Alice''])]]
     [''city'', ''age''] =
   Inr [[(''city'', Str ''New York''), (''age'', num 25), (''name'', Str ''John'')],
        [(''city'', Str ''New York''), (''age'', num 25), (''name'', Str ''Bob'')],
        [(''city'', Str ''San Francisco''), (''age'', num 30), (''name'', Str ''Jane'')],
        [(''city'', Str ''San Francisco''), (''age'', num 30), (''name'', Str ''Alice'')]]"
  by code_simp

lemma removeExtraProperties_example:
  "removeExtraProperties
     [[(''id'', num 1), (''name'', Str ''John''), (''age'', num 25), (''city'', Str ''New York'')],
      [(''id'', num 2), (''name'', Str ''Jane''), (''age'', num 30),
       (''city'', Str ''San Francisco'')],
      [(''id'', num 3), (''name'', Str ''Bob''), (''age'', num 22),
       (''city'', Str ''Los Angeles'')]]
     [''id'', ''name'', ''age''] =
   [[(''id'', num 1), (''name'', Str ''John''), (''age'', num 25)],
    [(''id'', num 2), (''name'', Str ''Jane''), (''age'', num 30)],
    [(''id'', num 3), (''name'', Str ''Bob''), (''age'', num 22)]]"
  by code_simp

end
